theory Spec2Isabelle
  imports Complex_Main
begin

section \<open>Player tracking and dynamic reframing\<close>

text \<open>
  A shallow embedding of \<^verbatim>\<open>src/modules/ball_tracker.py\<close> (class \<^verbatim>\<open>PlayerTracker\<close>) and of
  the crop arithmetic of \<^verbatim>\<open>make_frame\<close> in \<^verbatim>\<open>src/modules/clipper.py\<close>.

  Conventions of the embedding:
  \<^item> Python's unbounded integers are \<open>int\<close>; \<open>//\<close> and \<open>%\<close> are \<open>div\<close> and \<open>mod\<close>
    (both round towards minus infinity, in Python as in HOL).
  \<^item> Contour areas and moments, distances and times are exact reals. This is an
    idealisation: the theorems about them speak about the arithmetic the code writes
    down, not about IEEE rounding.
  \<^item> Where the source turns a double into an integer by \<^verbatim>\<open>int\<close> after a computation
    whose rounding the result depends on (the 10% offset of the crop, the weighted
    average of the smoother), the double-precision computation is not modelled: its
    result is an argument of the model.
  \<^item> Image processing proper (colour conversion, morphology, contour extraction, the HOG
    detector, the CSRT tracker) is not modelled; what these library calls return for a frame
    is part of the frame record.
  \<^item> Every exception the modelled code can raise is a value of \<open>py_error\<close>.
\<close>

subsection \<open>Basic data\<close>

type_synonym point = "int \<times> int"

text \<open>The \<^verbatim>\<open>(x, y, w, h)\<close> boxes of the person detector and of the tracker.\<close>

type_synonym bbox = "int \<times> int \<times> int \<times> int"

datatype py_error = ZeroDivisionError | ValueError | CvError | OverflowError

text \<open>Python's \<^verbatim>\<open>int(f)\<close> on a float: truncation towards zero.\<close>

definition py_int :: "real \<Rightarrow> int" where
  "py_int r = (if 0 \<le> r then \<lfloor>r\<rfloor> else \<lceil>r\<rceil>)"

text \<open>Python's \<^verbatim>\<open>a / b\<close> on floats raises on a zero divisor.\<close>

definition py_truediv :: "real \<Rightarrow> real \<Rightarrow> py_error + real" where
  "py_truediv a b = (if b = 0 then Inl ZeroDivisionError else Inr (a / b))"

subsection \<open>Crop geometry\<close>

text \<open>
  A Python integer that enters a float operation is first converted to a double, rounding
  to nearest with ties to even. The largest double is \<open>2^1024 - 2^971\<close>; an integer
  whose magnitude reaches the midpoint \<open>2^1024 - 2^970\<close> to the next power of two cannot
  be converted, and Python raises \<^verbatim>\<open>OverflowError\<close>.
\<close>

definition int_to_float_overflows :: "int \<Rightarrow> bool" where
  "int_to_float_overflows n \<longleftrightarrow> 2 ^ 1024 - 2 ^ 970 \<le> \<bar>n\<bar>"

text \<open>
  \<^verbatim>\<open>PlayerTracker.get_crop_region\<close>. Its first statement is
  \<^verbatim>\<open>offset_y = int(crop_height * 0.1)\<close>: the conversion of \<^verbatim>\<open>crop_height\<close> to a float
  raises for a height too large for a double; this is the only exception the function
  can raise. When the conversion succeeds, the product is a finite double and \<^verbatim>\<open>int\<close>
  of it is an integer; that integer is the argument \<open>offset_y\<close> of the model, so the
  theorems hold whatever the float product gives. The rest is integer arithmetic. The
  function has no check of its arguments.
\<close>

definition get_crop_region ::
  "int \<Rightarrow> int \<Rightarrow> int \<Rightarrow> int \<Rightarrow> int \<Rightarrow> int \<Rightarrow> int \<Rightarrow> py_error + int \<times> int" where
  "get_crop_region player_x player_y frame_width frame_height crop_width crop_height offset_y =
     (if int_to_float_overflows crop_height then Inl OverflowError
      else
        let crop_x = max 0 (min (player_x - crop_width div 2) (frame_width - crop_width));
            crop_y = max 0 (min (player_y - crop_height div 2 - offset_y)
                                (frame_height - crop_height))
        in Inr (crop_x, crop_y))"

text \<open>
  A NumPy basic slice \<^verbatim>\<open>a[start:stop]\<close> along an axis of length \<open>n\<close>: a negative index
  counts from the end, both ends are clipped to the axis, and the result has
  \<open>stop' - start'\<close> entries (none when that is negative).
\<close>

definition slice_index :: "int \<Rightarrow> int \<Rightarrow> int" where
  "slice_index n i = (if i < 0 then max 0 (i + n) else min i n)"

definition slice_len :: "int \<Rightarrow> int \<Rightarrow> int \<Rightarrow> int" where
  "slice_len n start stop = max 0 (slice_index n stop - slice_index n start)"

text \<open>
  The geometry of \<^verbatim>\<open>make_frame\<close> in \<^verbatim>\<open>VideoClipper._format_with_ball_tracking\<close>: where the
  crop window is put in the scaled frame, the shape of what the slice extracts, and whether
  and where it is pasted into a zero-filled frame of the target size.
\<close>

record crop_geometry =
  crop_x :: int
  crop_y :: int
  cropped_h :: int
  cropped_w :: int
  padded :: bool
  y_offset :: int
  x_offset :: int

text \<open>
  \<open>scaled_width\<close>, \<open>player_x_scaled\<close>, \<open>player_y_scaled\<close> and \<open>offset_y\<close> are the integers the
  source obtains by \<^verbatim>\<open>int(...)\<close> from float products; they are arguments here.
  \<^verbatim>\<open>cv2.resize(frame, (scaled_width, shorts_height))\<close> raises for an empty target size and
  otherwise gives a frame of shape \<open>(shorts_height, scaled_width)\<close>.
  In the unpadded case the offsets are not computed by the source; the record holds 0.
\<close>

definition make_frame ::
  "int \<Rightarrow> int \<Rightarrow> int \<Rightarrow> int \<Rightarrow> int \<Rightarrow> int \<Rightarrow> py_error + crop_geometry" where
  "make_frame shorts_width shorts_height scaled_width player_x_scaled player_y_scaled offset_y =
     (if scaled_width \<le> 0 \<or> shorts_height \<le> 0 then Inl CvError
      else
        let cx = max 0 (min (player_x_scaled - shorts_width div 2)
                            (scaled_width - shorts_width));
            cy = max 0 (min (player_y_scaled - shorts_height div 2 - offset_y)
                            (shorts_height - shorts_height));
            h = slice_len shorts_height cy (cy + shorts_height);
            w = slice_len scaled_width cx (cx + shorts_width)
        in if h < shorts_height \<or> w < shorts_width
           then Inr \<lparr>crop_x = cx, crop_y = cy, cropped_h = h, cropped_w = w, padded = True,
                     y_offset = (shorts_height - h) div 2,
                     x_offset = (shorts_width - w) div 2\<rparr>
           else Inr \<lparr>crop_x = cx, crop_y = cy, cropped_h = h, cropped_w = w, padded = False,
                     y_offset = 0, x_offset = 0\<rparr>)"

subsection \<open>Ball localisation\<close>

text \<open>
  What \<^verbatim>\<open>cv2.findContours\<close> found on the orange mask of a frame: for every contour its
  \<^verbatim>\<open>cv2.contourArea\<close> and the entries \<open>m00\<close>, \<open>m10\<close>, \<open>m01\<close> of its \<^verbatim>\<open>cv2.moments\<close>.
  The fields are independent in the model; nothing is assumed about how OpenCV relates
  the area to \<open>m00\<close>.
\<close>

record contour =
  contourArea :: real
  m00 :: real
  m10 :: real
  m01 :: real

text \<open>
  Python's \<^verbatim>\<open>max(xs, key=f)\<close>: the running best is replaced only by a strictly larger
  key, so the first of several largest elements is returned; an empty argument raises.
\<close>

fun max_by :: "('a \<Rightarrow> real) \<Rightarrow> 'a \<Rightarrow> 'a list \<Rightarrow> 'a" where
  "max_by key best [] = best"
| "max_by key best (x # xs) = max_by key (if key best < key x then x else best) xs"

definition py_max :: "('a \<Rightarrow> real) \<Rightarrow> 'a list \<Rightarrow> py_error + 'a" where
  "py_max key xs = (case xs of [] \<Rightarrow> Inl ValueError | x # rest \<Rightarrow> Inr (max_by key x rest))"

text \<open>The area gate of the source is \<^verbatim>\<open>area < 50 or area > 50000\<close>; this is its negation.\<close>

definition in_band :: "contour \<Rightarrow> bool" where
  "in_band c \<longleftrightarrow> \<not> (contourArea c < 50 \<or> contourArea c > 50000)"

text \<open>
  \<^verbatim>\<open>PlayerTracker.detect_ball_position\<close>, from the contour list on: the largest contour
  is chosen first, then gated by its area and by \<open>m00\<close>, then its centroid is computed.
\<close>

definition detect_ball_position :: "contour list \<Rightarrow> py_error + point option" where
  "detect_ball_position contours =
     (if contours = [] then Inr None
      else case py_max contourArea contours of
        Inl e \<Rightarrow> Inl e
      | Inr largest_contour \<Rightarrow>
          if contourArea largest_contour < 50 \<or> contourArea largest_contour > 50000
          then Inr None
          else if m00 largest_contour = 0 then Inr None
          else case py_truediv (m10 largest_contour) (m00 largest_contour) of
            Inl e \<Rightarrow> Inl e
          | Inr qx \<Rightarrow>
              (case py_truediv (m01 largest_contour) (m00 largest_contour) of
                 Inl e \<Rightarrow> Inl e
               | Inr qy \<Rightarrow> Inr (Some (py_int qx, py_int qy))))"

subsection \<open>Subject selection\<close>

text \<open>
  The centre of a person box as both loops of \<^verbatim>\<open>find_player_with_ball\<close> compute it
  (\<^verbatim>\<open>x + w // 2\<close>, \<^verbatim>\<open>y + h // 2\<close>), and the distance
  \<^verbatim>\<open>np.sqrt((ax - bx)**2 + (ay - by)**2)\<close> between two integer points.
\<close>

definition box_center :: "bbox \<Rightarrow> point" where
  "box_center b = (case b of (x, y, w, h) \<Rightarrow> (x + w div 2, y + h div 2))"

definition distance :: "point \<Rightarrow> point \<Rightarrow> real" where
  "distance a b = sqrt (real_of_int ((fst a - fst b)\<^sup>2 + (snd a - snd b)\<^sup>2))"

text \<open>
  The two \<^verbatim>\<open>for (x, y, w, h) in players\<close> loops of \<^verbatim>\<open>find_player_with_ball\<close> are the same
  loop run towards different points (the ball, the frame centre). The accumulator is the
  pair of \<^verbatim>\<open>min_dist\<close> and the closest centre so far; \<open>None\<close> stands for the initial
  \<^verbatim>\<open>min_dist = float('inf')\<close> with no centre, below which every distance lies.
\<close>

fun closest_loop :: "point \<Rightarrow> (real \<times> point) option \<Rightarrow> bbox list \<Rightarrow> (real \<times> point) option" where
  "closest_loop target acc [] = acc"
| "closest_loop target acc (b # players) =
     (let player_center = box_center b;
          dist = distance target player_center
      in closest_loop target
           (if (case acc of None \<Rightarrow> True | Some (min_dist, _) \<Rightarrow> dist < min_dist)
            then Some (dist, player_center) else acc)
           players)"

text \<open>
  \<^verbatim>\<open>find_player_with_ball\<close> after its two detector calls (source lines 125 to 165), as a
  function of the ball position, the player boxes and \<^verbatim>\<open>frame.shape[:2]\<close>.
\<close>

definition select_player :: "point option \<Rightarrow> bbox list \<Rightarrow> int \<Rightarrow> int \<Rightarrow> point option" where
  "select_player ball_pos players height width =
     (if players = [] then None
      else
        case (case ball_pos of
                None \<Rightarrow> None
              | Some ball \<Rightarrow>
                  (case closest_loop ball None players of
                     None \<Rightarrow> None
                   | Some (min_dist, closest_player) \<Rightarrow>
                       if min_dist < 200 then Some closest_player else None)) of
          Some closest_player \<Rightarrow> Some closest_player
        | None \<Rightarrow>
            (case closest_loop (width div 2, height div 2) None players of
               None \<Rightarrow> None
             | Some (min_dist, center_player) \<Rightarrow> Some center_player))"

text \<open>
  A frame as the tracker sees it: its shape, the contours of its orange mask, the boxes
  \<^verbatim>\<open>detect_players\<close> returns for it, and what \<^verbatim>\<open>tracker.update\<close> answers when called on it.
\<close>

record frame =
  shape_height :: int
  shape_width :: int
  ball_contours :: "contour list"
  detected_players :: "bbox list"
  update_result :: "bool \<times> bbox"

definition find_player_with_ball :: "frame \<Rightarrow> py_error + point option" where
  "find_player_with_ball f =
     (case detect_ball_position (ball_contours f) of
        Inl e \<Rightarrow> Inl e
      | Inr ball_pos \<Rightarrow> Inr (select_player ball_pos (detected_players f) (shape_height f) (shape_width f)))"

subsection \<open>Position smoothing\<close>

definition history_size :: nat where
  "history_size = 7"

text \<open>
  Source lines 259 to 262: append the raw position, then drop the oldest entry if the
  history has grown beyond its size. The size is an argument so that a window of another
  size can be stated; the tracking loop passes \<open>history_size\<close>.
\<close>

definition push_history :: "nat \<Rightarrow> point list \<Rightarrow> point \<Rightarrow> point list" where
  "push_history hsize history player_pos =
     (let h = history @ [player_pos]
      in if length h > hsize then tl h else h)"

text \<open>
  Source lines 264 to 267. The expression
  \<^verbatim>\<open>np.average(values, weights=np.linspace(0.5, 1.0, len(values)))\<close> is evaluated by NumPy
  in double precision: the weights, the products, the two sums and the quotient are all
  rounded, and \<^verbatim>\<open>int\<close> then truncates the rounded quotient. The model does not compute
  doubles. What that expression yields for a list of integer coordinates (a double, or
  an exception) is given by an argument of type \<open>averager\<close>; the model applies it to the
  x and to the y coordinates of the history and truncates.
\<close>

type_synonym averager = "int list \<Rightarrow> py_error + real"

definition smooth :: "averager \<Rightarrow> point list \<Rightarrow> py_error + point" where
  "smooth average history =
     (case average (map fst history) of
        Inl e \<Rightarrow> Inl e
      | Inr avg_x \<Rightarrow>
          (case average (map snd history) of
             Inl e \<Rightarrow> Inl e
           | Inr avg_y \<Rightarrow> Inr (py_int avg_x, py_int avg_y)))"

text \<open>
  The exact values that the double-precision computation approximates: the weight of the
  entry at index \<open>i\<close> of a history of \<open>n\<close> entries, rising linearly from 1/2 at the
  oldest entry to 1 at the newest (\<^verbatim>\<open>np.linspace(0.5, 1.0, n)\<close>; a single entry has weight
  1/2), the mean of an integer list under these weights, and the averager that returns
  this mean without any rounding. \<open>accurate_on\<close> says that an averager answers a list
  with a number within a tolerance of the exact mean.
\<close>

definition ramp_weight :: "nat \<Rightarrow> nat \<Rightarrow> real" where
  "ramp_weight n i = (if n = 1 then 1 / 2 else 1 / 2 + real i / (2 * real (n - 1)))"

definition ramp_mean :: "int list \<Rightarrow> real" where
  "ramp_mean xs =
     (\<Sum>i<length xs. ramp_weight (length xs) i * real_of_int (xs ! i))
       / (\<Sum>i<length xs. ramp_weight (length xs) i)"

definition exact_average :: averager where
  "exact_average xs = (if xs = [] then Inl ZeroDivisionError else Inr (ramp_mean xs))"

definition accurate_on :: "averager \<Rightarrow> real \<Rightarrow> int list \<Rightarrow> bool" where
  "accurate_on average tol xs =
     (case average xs of Inl e \<Rightarrow> False | Inr r \<Rightarrow> \<bar>r - ramp_mean xs\<bar> \<le> tol)"

subsection \<open>The tracking loop\<close>

text \<open>
  The CSRT tracker is opaque. The model keeps what identifies an instance (the frame
  number at which it was created and the box it was initialised on) and counts the
  \<^verbatim>\<open>update\<close> calls made on it; what an update answers comes with the frame.
\<close>

record csrt =
  created_at :: int
  init_bbox :: bbox
  updates :: nat

record tracking_state =
  tracker :: "csrt option"
  tracked_bbox :: "bbox option"
  last_position :: "point option"
  position_history :: "point list"
  positions :: "(real \<times> int \<times> int) list"
  frame_num :: int

definition initial_state :: tracking_state where
  "initial_state = \<lparr>tracker = None, tracked_bbox = None, last_position = None,
                      position_history = [], positions = [], frame_num = 0\<rparr>"

text \<open>
  Detection phase, source lines 213 to 235. \<^verbatim>\<open>frame_num % detection_interval\<close> is
  evaluated first and raises for a zero interval. Both branches on
  \<^verbatim>\<open>tracker is None\<close> create a fresh tracker on the clamped 150x150 box.
\<close>

definition detection_phase ::
  "int \<Rightarrow> tracking_state \<Rightarrow> frame \<Rightarrow> py_error + (point option \<times> tracking_state)" where
  "detection_phase detection_interval s f =
     (if detection_interval = 0 then Inl ZeroDivisionError
      else if frame_num s mod detection_interval = 0 \<or> tracker s = None then
        case find_player_with_ball f of
          Inl e \<Rightarrow> Inl e
        | Inr None \<Rightarrow> Inr (None, s)
        | Inr (Some (px, py)) \<Rightarrow>
            (let bbox_size = 150;
                 bbox = (max 0 (px - bbox_size div 2), max 0 (py - bbox_size div 2),
                         max 0 bbox_size, max 0 bbox_size)
             in Inr (Some (px, py),
                     s\<lparr>tracker := Some \<lparr>created_at = frame_num s, init_bbox = bbox, updates = 0\<rparr>,
                       tracked_bbox := Some bbox,
                       last_position := Some (px, py)\<rparr>))
      else Inr (None, s))"

text \<open>
  Tracking phase, source lines 237 to 248: whenever a tracker exists it is updated on
  the frame, also on a frame where detection has just run.
\<close>

definition tracking_phase ::
  "point option \<Rightarrow> tracking_state \<Rightarrow> frame \<Rightarrow> point option \<times> tracking_state" where
  "tracking_phase player_pos s f =
     (case tracker s of
        None \<Rightarrow> (player_pos, s)
      | Some t \<Rightarrow>
          (let (success, bbox) = update_result f;
               t' = t\<lparr>updates := updates t + 1\<rparr>
           in if success
              then (let pos = box_center bbox
                    in (Some pos, s\<lparr>tracker := Some t', tracked_bbox := Some bbox,
                                   last_position := Some pos\<rparr>))
              else ((case last_position s of Some lp \<Rightarrow> Some lp | None \<Rightarrow> player_pos),
                    s\<lparr>tracker := Some t'\<rparr>)))"

text \<open>
  Source lines 211 to 257: the raw position of the frame (after the fallback to the last
  position or to the frame centre) and the state of the tracker afterwards.
\<close>

definition locate_subject ::
  "int \<Rightarrow> tracking_state \<Rightarrow> frame \<Rightarrow> py_error + (point \<times> tracking_state)" where
  "locate_subject detection_interval s f =
     (case detection_phase detection_interval s f of
        Inl e \<Rightarrow> Inl e
      | Inr (detected, s1) \<Rightarrow>
          (let (player_pos, s2) = tracking_phase detected s1 f
           in case player_pos of
                Some p \<Rightarrow> Inr (p, s2)
              | None \<Rightarrow>
                  (case last_position s2 of
                     Some lp \<Rightarrow> Inr (lp, s2)
                   | None \<Rightarrow> Inr ((shape_width f div 2, shape_height f div 2), s2))))"

text \<open>One pass through the loop body, source lines 211 to 271.\<close>

definition track_frame ::
  "averager \<Rightarrow> real \<Rightarrow> int \<Rightarrow> tracking_state \<Rightarrow> frame \<Rightarrow> py_error + tracking_state" where
  "track_frame average current_time detection_interval s f =
     (case locate_subject detection_interval s f of
        Inl e \<Rightarrow> Inl e
      | Inr (player_pos, s1) \<Rightarrow>
          (let h = push_history history_size (position_history s1) player_pos
           in case smooth average h of
                Inl e \<Rightarrow> Inl e
              | Inr (avg_x, avg_y) \<Rightarrow>
                  Inr (s1\<lparr>position_history := h,
                          positions := positions s1 @ [(current_time, avg_x, avg_y)],
                          frame_num := frame_num s1 + 1\<rparr>)))"

text \<open>
  The \<^verbatim>\<open>while True\<close> loop over the frames \<^verbatim>\<open>cap.read()\<close> delivers from the start frame
  on: it ends when the frames are used up or the clip duration is exceeded.
  \<^verbatim>\<open>frame_num / fps\<close> raises for \<open>fps = 0\<close>.
\<close>

fun track_loop ::
  "averager \<Rightarrow> real \<Rightarrow> real \<Rightarrow> real \<Rightarrow> int \<Rightarrow> tracking_state \<Rightarrow> frame list
     \<Rightarrow> py_error + tracking_state" where
  "track_loop average fps start_time duration detection_interval s [] = Inr s"
| "track_loop average fps start_time duration detection_interval s (f # fs) =
     (if fps = 0 then Inl ZeroDivisionError
      else
        let current_time = start_time + real_of_int (frame_num s) / fps
        in if current_time > start_time + duration then Inr s
           else case track_frame average current_time detection_interval s f of
                  Inl e \<Rightarrow> Inl e
                | Inr s' \<Rightarrow> track_loop average fps start_time duration detection_interval s' fs)"

definition track_player_with_ball ::
  "averager \<Rightarrow> real \<Rightarrow> frame list \<Rightarrow> real \<Rightarrow> real \<Rightarrow> py_error + (real \<times> int \<times> int) list" where
  "track_player_with_ball average fps frames start_time duration =
     (case track_loop average fps start_time duration (py_int (fps * 0.5)) initial_state
             frames of
        Inl e \<Rightarrow> Inl e
      | Inr s \<Rightarrow> Inr (positions s))"

subsection \<open>Crop geometry: results\<close>

lemma get_crop_region_cases:
  "(int_to_float_overflows crop_height
      \<and> get_crop_region px py frame_width frame_height crop_width crop_height oy
          = Inl OverflowError)
   \<or> (\<not> int_to_float_overflows crop_height
      \<and> get_crop_region px py frame_width frame_height crop_width crop_height oy
          = Inr (max 0 (min (px - crop_width div 2) (frame_width - crop_width)),
                 max 0 (min (py - crop_height div 2 - oy) (frame_height - crop_height))))"
  by (simp add: get_crop_region_def Let_def)

lemma get_crop_region_bounds:
  assumes "crop_width \<le> frame_width" and "crop_height \<le> frame_height"
    and "get_crop_region px py frame_width frame_height crop_width crop_height oy = Inr (x, y)"
  shows "0 \<le> x \<and> 0 \<le> y \<and> x + crop_width \<le> frame_width \<and> y + crop_height \<le> frame_height"
proof -
  from assms(3) have x: "x = max 0 (min (px - crop_width div 2) (frame_width - crop_width))"
    and y: "y = max 0 (min (py - crop_height div 2 - oy) (frame_height - crop_height))"
    by (auto simp: get_crop_region_def Let_def split: if_splits)
  from assms(1) have "0 \<le> x \<and> x + crop_width \<le> frame_width"
    unfolding x by (simp add: max_def min_def)
  moreover from assms(2) have "0 \<le> y \<and> y + crop_height \<le> frame_height"
    unfolding y by (simp add: max_def min_def)
  ultimately show ?thesis by simp
qed

text \<open>
  When the frame is narrower than the crop, \<^verbatim>\<open>get_crop_region\<close> still answers with an
  origin (0 on that axis); it has no way to say that padding is needed. The caller
  \<^verbatim>\<open>make_frame\<close> repeats the same arithmetic inline and does the padding itself.
\<close>

lemma get_crop_region_undersized:
  assumes "frame_width < crop_width"
    and "get_crop_region px py frame_width frame_height crop_width crop_height oy = Inr (x, y)"
  shows "x = 0"
  using assms by (auto simp: get_crop_region_def Let_def max_def min_def split: if_splits)

lemma clamp_zero_height: "max 0 (min a (H - H)) = (0::int)"
  by simp

lemma slice_len_full: "0 < n \<Longrightarrow> slice_len n 0 (0 + n) = n"
  by (simp add: slice_len_def slice_index_def)

lemma slice_len_inside:
  assumes "0 \<le> a" and "0 < k" and "a + k \<le> n"
  shows "slice_len n a (a + k) = k"
  using assms by (simp add: slice_len_def slice_index_def)

lemma slice_len_clipped:
  assumes "0 < n" and "n < k"
  shows "slice_len n 0 (0 + k) = n"
  using assms by (simp add: slice_len_def slice_index_def)

lemma clamp_fits:
  assumes "(W::int) \<le> sw"
  shows "0 \<le> max 0 (min a (sw - W))" and "max 0 (min a (sw - W)) + W \<le> sw"
  using assms by (simp_all add: max_def min_def)

lemma clamp_undersized:
  assumes "(sw::int) < W"
  shows "max 0 (min a (sw - W)) = 0"
  using assms by (simp add: max_def min_def)

lemma make_frame_fits:
  assumes "0 < W" and "0 < H" and "W \<le> sw"
  shows "\<exists>g. make_frame W H sw px py oy = Inr g \<and> \<not> padded g \<and> 0 \<le> crop_x g \<and> crop_y g = 0
           \<and> crop_x g + W \<le> sw \<and> cropped_w g = W \<and> cropped_h g = H"
proof -
  define cx where "cx = max 0 (min (px - W div 2) (sw - W))"
  have cx: "0 \<le> cx" "cx + W \<le> sw"
    unfolding cx_def using clamp_fits [OF assms(3)] by blast+
  have w: "slice_len sw cx (cx + W) = W"
    using slice_len_inside [OF cx(1) assms(1) cx(2)] .
  have h: "slice_len H 0 (0 + H) = H"
    using slice_len_full [OF assms(2)] .
  have sw: "\<not> sw \<le> 0" "\<not> H \<le> 0"
    using assms by linarith+
  have "make_frame W H sw px py oy =
          Inr \<lparr>crop_x = cx, crop_y = 0, cropped_h = H, cropped_w = W, padded = False,
               y_offset = 0, x_offset = 0\<rparr>"
    unfolding make_frame_def clamp_zero_height Let_def cx_def [symmetric]
    using sw w h by simp
  then show ?thesis using cx by simp
qed

lemma make_frame_undersized:
  assumes "0 < sw" and "0 < H" and "sw < W"
  shows "\<exists>g. make_frame W H sw px py oy = Inr g \<and> padded g \<and> crop_x g = 0 \<and> crop_y g = 0
           \<and> cropped_w g = sw \<and> cropped_h g = H
           \<and> x_offset g = (W - sw) div 2 \<and> y_offset g = 0"
proof -
  have cx: "max 0 (min (px - W div 2) (sw - W)) = 0"
    using clamp_undersized [OF assms(3)] .
  have w: "slice_len sw 0 (0 + W) = sw"
    using slice_len_clipped [OF assms(1) assms(3)] .
  have h: "slice_len H 0 (0 + H) = H"
    using slice_len_full [OF assms(2)] .
  have sw: "\<not> sw \<le> 0" "\<not> H \<le> 0"
    using assms by linarith+
  have "make_frame W H sw px py oy =
          Inr \<lparr>crop_x = 0, crop_y = 0, cropped_h = H, cropped_w = sw, padded = True,
               y_offset = (H - H) div 2, x_offset = (W - sw) div 2\<rparr>"
    unfolding make_frame_def clamp_zero_height Let_def cx
    using sw w h assms(3) by simp
  then show ?thesis by simp
qed

text \<open>
  Claim C1. For positive target and scaled source dimensions \<^verbatim>\<open>make_frame\<close> always yields a
  crop. If the scaled source is at least as wide as the target (its height is the target
  height by construction), the crop origin is non-negative, the window
  \<open>(crop_x, crop_y, shorts_width, shorts_height)\<close> lies inside the scaled frame, and nothing
  is padded. If the scaled source is narrower than the target, the extracted region is the
  whole scaled frame (so it stays inside it), and it is pasted centred into a zero-filled
  frame of the target size. When the crop fits into the frame, \<^verbatim>\<open>get_crop_region\<close>
  either returns an origin that obeys the same bounds, or raises \<^verbatim>\<open>OverflowError\<close> because
  the crop height is too large for a double.
\<close>

theorem crop_in_bounds_or_padded:
  assumes "0 < shorts_width" and "0 < shorts_height" and "0 < scaled_width"
  shows "(\<exists>g. make_frame shorts_width shorts_height scaled_width px py oy = Inr g \<and>
            (shorts_width \<le> scaled_width \<longrightarrow>
               \<not> padded g \<and> 0 \<le> crop_x g \<and> 0 \<le> crop_y g
               \<and> crop_x g + shorts_width \<le> scaled_width
               \<and> crop_y g + shorts_height \<le> shorts_height
               \<and> cropped_w g = shorts_width \<and> cropped_h g = shorts_height) \<and>
            (scaled_width < shorts_width \<longrightarrow>
               padded g \<and> crop_x g = 0 \<and> crop_y g = 0
               \<and> crop_x g + cropped_w g \<le> scaled_width
               \<and> crop_y g + cropped_h g \<le> shorts_height
               \<and> x_offset g = (shorts_width - cropped_w g) div 2
               \<and> y_offset g = (shorts_height - cropped_h g) div 2
               \<and> 0 \<le> x_offset g \<and> x_offset g + cropped_w g \<le> shorts_width
               \<and> 0 \<le> y_offset g \<and> y_offset g + cropped_h g \<le> shorts_height))
       \<and> (crop_width \<le> frame_width \<and> crop_height \<le> frame_height \<longrightarrow>
            (case get_crop_region x2 y2 frame_width frame_height crop_width crop_height oy2 of
               Inl e \<Rightarrow> e = OverflowError \<and> int_to_float_overflows crop_height
             | Inr (x, y) \<Rightarrow>
                 \<not> int_to_float_overflows crop_height
                 \<and> 0 \<le> x \<and> 0 \<le> y
                 \<and> x + crop_width \<le> frame_width \<and> y + crop_height \<le> frame_height))"
proof (intro conjI)
  show "\<exists>g. make_frame shorts_width shorts_height scaled_width px py oy = Inr g \<and>
            (shorts_width \<le> scaled_width \<longrightarrow>
               \<not> padded g \<and> 0 \<le> crop_x g \<and> 0 \<le> crop_y g
               \<and> crop_x g + shorts_width \<le> scaled_width
               \<and> crop_y g + shorts_height \<le> shorts_height
               \<and> cropped_w g = shorts_width \<and> cropped_h g = shorts_height) \<and>
            (scaled_width < shorts_width \<longrightarrow>
               padded g \<and> crop_x g = 0 \<and> crop_y g = 0
               \<and> crop_x g + cropped_w g \<le> scaled_width
               \<and> crop_y g + cropped_h g \<le> shorts_height
               \<and> x_offset g = (shorts_width - cropped_w g) div 2
               \<and> y_offset g = (shorts_height - cropped_h g) div 2
               \<and> 0 \<le> x_offset g \<and> x_offset g + cropped_w g \<le> shorts_width
               \<and> 0 \<le> y_offset g \<and> y_offset g + cropped_h g \<le> shorts_height)"
  proof (cases "shorts_width \<le> scaled_width")
    case True
    from make_frame_fits [OF assms(1) assms(2) True, of px py oy]
    show ?thesis using True by auto
  next
    case False
    then have lt: "scaled_width < shorts_width" by simp
    from make_frame_undersized [OF assms(3) assms(2) lt, of px py oy]
    obtain g where g: "make_frame shorts_width shorts_height scaled_width px py oy = Inr g"
      "padded g" "crop_x g = 0" "crop_y g = 0" "cropped_w g = scaled_width"
      "cropped_h g = shorts_height" "x_offset g = (shorts_width - scaled_width) div 2"
      "y_offset g = 0"
      by blast
    have "0 \<le> (shorts_width - scaled_width) div 2"
      using lt by simp
    moreover have "(shorts_width - scaled_width) div 2 + scaled_width \<le> shorts_width"
      using lt by linarith
    ultimately show ?thesis using g lt assms by auto
  qed
next
  show "crop_width \<le> frame_width \<and> crop_height \<le> frame_height \<longrightarrow>
            (case get_crop_region x2 y2 frame_width frame_height crop_width crop_height oy2 of
               Inl e \<Rightarrow> e = OverflowError \<and> int_to_float_overflows crop_height
             | Inr (x, y) \<Rightarrow>
                 \<not> int_to_float_overflows crop_height
                 \<and> 0 \<le> x \<and> 0 \<le> y
                 \<and> x + crop_width \<le> frame_width \<and> y + crop_height \<le> frame_height)"
  proof
    assume fits: "crop_width \<le> frame_width \<and> crop_height \<le> frame_height"
    show "case get_crop_region x2 y2 frame_width frame_height crop_width crop_height oy2 of
               Inl e \<Rightarrow> e = OverflowError \<and> int_to_float_overflows crop_height
             | Inr (x, y) \<Rightarrow>
                 \<not> int_to_float_overflows crop_height
                 \<and> 0 \<le> x \<and> 0 \<le> y
                 \<and> x + crop_width \<le> frame_width \<and> y + crop_height \<le> frame_height"
    proof (cases "get_crop_region x2 y2 frame_width frame_height crop_width crop_height oy2")
      case (Inl e)
      with get_crop_region_cases [of crop_height x2 y2 frame_width frame_height crop_width oy2]
      show ?thesis by auto
    next
      case (Inr xy)
      obtain x y where xy: "xy = (x, y)" by (cases xy) auto
      from Inr xy
        get_crop_region_cases [of crop_height x2 y2 frame_width frame_height crop_width oy2]
      have "\<not> int_to_float_overflows crop_height" by auto
      with Inr xy fits
        get_crop_region_bounds [of crop_width frame_width crop_height frame_height x2 y2 oy2 x y]
      show ?thesis by simp
    qed
  qed
qed

text \<open>
  The theorem at the 1280x720 source scaled to 3413x1920 with the subject at (1733, 960)
  (crop origin (1193, 0), nothing padded), at a scaled source only 800 wide (padded, pasted
  at column 140), and for \<^verbatim>\<open>get_crop_region\<close> on the unscaled frame.
\<close>

theorem crop_in_bounds_or_padded_witness:
  "make_frame 1080 1920 3413 1733 960 192 =
     Inr \<lparr>crop_x = 1193, crop_y = 0, cropped_h = 1920, cropped_w = 1080, padded = False,
          y_offset = 0, x_offset = 0\<rparr>
   \<and> (\<exists>g. make_frame 1080 1920 3413 1733 960 192 = Inr g \<and> \<not> padded g
          \<and> 0 \<le> crop_x g \<and> crop_x g + 1080 \<le> 3413)
   \<and> (\<exists>g. make_frame 1080 1920 800 400 960 192 = Inr g \<and> padded g
          \<and> crop_x g = 0 \<and> x_offset g = (1080 - cropped_w g) div 2)
   \<and> get_crop_region 650 360 1280 720 405 720 72 = Inr (448, 0)
   \<and> \<not> int_to_float_overflows 720"
proof -
  have a: "make_frame 1080 1920 3413 1733 960 192 =
     Inr \<lparr>crop_x = 1193, crop_y = 0, cropped_h = 1920, cropped_w = 1080, padded = False,
          y_offset = 0, x_offset = 0\<rparr>"
    by (simp add: make_frame_def Let_def slice_len_def slice_index_def)
  have b: "get_crop_region 650 360 1280 720 405 720 72 = Inr (448, 0)"
    by (simp add: get_crop_region_def int_to_float_overflows_def Let_def)
  from crop_in_bounds_or_padded [where shorts_width = 1080 and shorts_height = 1920
      and scaled_width = 3413 and px = 1733 and py = 960 and oy = 192 and crop_width = 405
      and frame_width = 1280 and crop_height = 720 and frame_height = 720 and ?x2.0 = 650
      and ?y2.0 = 360 and ?oy2.0 = 72]
  have c: "\<exists>g. make_frame 1080 1920 3413 1733 960 192 = Inr g \<and> \<not> padded g
          \<and> 0 \<le> crop_x g \<and> crop_x g + 1080 \<le> 3413"
    and e: "\<not> int_to_float_overflows 720"
    using b by auto
  from crop_in_bounds_or_padded [where shorts_width = 1080 and shorts_height = 1920
      and scaled_width = 800 and px = 400 and py = 960 and oy = 192 and crop_width = 405
      and frame_width = 1280 and crop_height = 720 and frame_height = 720 and ?x2.0 = 650
      and ?y2.0 = 360 and ?oy2.0 = 72]
  have d: "\<exists>g. make_frame 1080 1920 800 400 960 192 = Inr g \<and> padded g
          \<and> crop_x g = 0 \<and> x_offset g = (1080 - cropped_w g) div 2"
    by auto
  from a b c d e show ?thesis by blast
qed

subsection \<open>Ball localisation: results\<close>

lemma max_by_split:
  "\<exists>pre post. b # xs = pre @ max_by key b xs # post
      \<and> (\<forall>x\<in>set pre. key x < key (max_by key b xs))
      \<and> (\<forall>x\<in>set post. key x \<le> key (max_by key b xs))"
proof (induction xs arbitrary: b)
  case Nil
  have "[b] = [] @ max_by key b [] # []" by simp
  then show ?case by fastforce
next
  case (Cons x xs)
  define b' where "b' = (if key b < key x then x else b)"
  have step: "max_by key b (x # xs) = max_by key b' xs" by (simp add: b'_def)
  define m where "m = max_by key b' xs"
  from Cons.IH [of b'] obtain pre post where sp: "b' # xs = pre @ m # post"
    and lt: "\<forall>y\<in>set pre. key y < key m"
    and le: "\<forall>y\<in>set post. key y \<le> key m"
    unfolding m_def by blast
  have b'le: "key b' \<le> key m"
  proof (cases pre)
    case Nil
    with sp have "m = b'" by simp
    then show ?thesis by simp
  next
    case (Cons p ps)
    with sp have "b' \<in> set pre" by simp
    with lt show ?thesis by fastforce
  qed
  show ?case
  proof (cases "key b < key x")
    case True
    then have b': "b' = x" by (simp add: b'_def)
    from True b' b'le have "key b < key m" by simp
    with lt have 1: "\<forall>y\<in>set (b # pre). key y < key m" by simp
    from sp b' have 2: "b # x # xs = (b # pre) @ m # post" by simp
    from 1 2 le show ?thesis unfolding step m_def [symmetric] by blast
  next
    case False
    then have b': "b' = b" by (simp add: b'_def)
    show ?thesis
    proof (cases pre)
      case Nil
      with sp b' have m: "m = b" and post: "post = xs" by simp_all
      from False m le post have 1: "\<forall>y\<in>set (x # xs). key y \<le> key m" by simp
      from m have 2: "b # x # xs = [] @ m # (x # xs)" by simp
      have 3: "\<forall>y\<in>set []. key y < key m" by simp
      from 1 2 3 show ?thesis unfolding step m_def [symmetric] by blast
    next
      case (Cons p ps)
      with sp b' have p: "p = b" and xs: "xs = ps @ m # post" by simp_all
      from lt Cons p have "key b < key m" by simp
      with False have xm: "key x < key m" by simp
      from lt Cons p xm have 1: "\<forall>y\<in>set (b # x # ps). key y < key m" by simp
      from xs have 2: "b # x # xs = (b # x # ps) @ m # post" by simp
      from 1 2 le show ?thesis unfolding step m_def [symmetric] by blast
    qed
  qed
qed

lemma detect_ball_position_unfold:
  "detect_ball_position (c # cs) =
     (let l = max_by contourArea c cs in
      if in_band l \<and> m00 l \<noteq> 0
      then Inr (Some (py_int (m10 l / m00 l), py_int (m01 l / m00 l)))
      else Inr None)"
  by (simp add: detect_ball_position_def py_max_def py_truediv_def in_band_def Let_def)

text \<open>
  Claim C2 (as amended). The gate is applied to the largest contour only. On an empty
  contour list nothing is returned. Otherwise let \<open>l\<close> be the first contour of largest
  area: a position is returned exactly when the area of \<open>l\<close> lies in the band 50..50000
  and its \<open>m00\<close> is not zero, and it is then the truncated centroid of \<open>l\<close>. Contours
  other than \<open>l\<close> play no part, whether in band or not.
\<close>

theorem detect_ball_position_gates_largest:
  "(contours = [] \<longrightarrow> detect_ball_position contours = Inr None) \<and>
   (contours \<noteq> [] \<longrightarrow>
      (\<exists>pre l post. contours = pre @ l # post
          \<and> (\<forall>c\<in>set pre. contourArea c < contourArea l)
          \<and> (\<forall>c\<in>set post. contourArea c \<le> contourArea l)
          \<and> detect_ball_position contours =
                (if 50 \<le> contourArea l \<and> contourArea l \<le> 50000 \<and> m00 l \<noteq> 0
                 then Inr (Some (py_int (m10 l / m00 l), py_int (m01 l / m00 l)))
                 else Inr None)))"
proof (cases contours)
  case Nil
  then show ?thesis by (simp add: detect_ball_position_def)
next
  case (Cons c cs)
  define l where "l = max_by contourArea c cs"
  from max_by_split [of c cs contourArea] obtain pre post
    where sp: "c # cs = pre @ l # post"
      and lt: "\<forall>x\<in>set pre. contourArea x < contourArea l"
      and le: "\<forall>x\<in>set post. contourArea x \<le> contourArea l"
    unfolding l_def by blast
  have band: "in_band l \<longleftrightarrow> 50 \<le> contourArea l \<and> contourArea l \<le> 50000"
    by (auto simp: in_band_def)
  have "detect_ball_position (c # cs) =
          (if 50 \<le> contourArea l \<and> contourArea l \<le> 50000 \<and> m00 l \<noteq> 0
           then Inr (Some (py_int (m10 l / m00 l), py_int (m01 l / m00 l)))
           else Inr None)"
    unfolding detect_ball_position_unfold l_def [symmetric] Let_def band by simp
  with sp lt le Cons show ?thesis by blast
qed

text \<open>
  The theorem on two contours, the first of area 100 with centroid (640.5, 360.9), the
  second of area 30: the position (640, 360) is returned.
\<close>

theorem detect_ball_position_gates_largest_witness:
  "[\<lparr>contourArea = 100, m00 = 100, m10 = 64050, m01 = 36090\<rparr>,
    \<lparr>contourArea = 30, m00 = 30, m10 = 300, m01 = 300\<rparr>] \<noteq> []
   \<and> (\<exists>pre l post.
         [\<lparr>contourArea = 100, m00 = 100, m10 = 64050, m01 = 36090\<rparr>,
          \<lparr>contourArea = 30, m00 = 30, m10 = 300, m01 = 300\<rparr>] = pre @ l # post
         \<and> (\<forall>c\<in>set pre. contourArea c < contourArea l)
         \<and> (\<forall>c\<in>set post. contourArea c \<le> contourArea l)
         \<and> detect_ball_position
               [\<lparr>contourArea = 100, m00 = 100, m10 = 64050, m01 = 36090\<rparr>,
                \<lparr>contourArea = 30, m00 = 30, m10 = 300, m01 = 300\<rparr>] =
             (if 50 \<le> contourArea l \<and> contourArea l \<le> 50000 \<and> m00 l \<noteq> 0
              then Inr (Some (py_int (m10 l / m00 l), py_int (m01 l / m00 l)))
              else Inr None))
   \<and> detect_ball_position
         [\<lparr>contourArea = 100, m00 = 100, m10 = 64050, m01 = 36090\<rparr>,
          \<lparr>contourArea = 30, m00 = 30, m10 = 300, m01 = 300\<rparr>] = Inr (Some (640, 360))"
proof -
  have "detect_ball_position
         [\<lparr>contourArea = 100, m00 = 100, m10 = 64050, m01 = 36090\<rparr>,
          \<lparr>contourArea = 30, m00 = 30, m10 = 300, m01 = 300\<rparr>] = Inr (Some (640, 360))"
    by (simp add: detect_ball_position_unfold in_band_def py_int_def)
  then show ?thesis
    using detect_ball_position_gates_largest
      [of "[\<lparr>contourArea = 100, m00 = 100, m10 = 64050, m01 = 36090\<rparr>,
            \<lparr>contourArea = 30, m00 = 30, m10 = 300, m01 = 300\<rparr>]"]
    by simp
qed

text \<open>
  Claim C2 as the specification states it fails: a contour of area 100 is in the band, yet
  with a larger contour of area 60000 in the same frame no ball position is returned.
\<close>

theorem detect_ball_position_counterexample:
  "in_band \<lparr>contourArea = 100, m00 = 100, m10 = 64050, m01 = 36090\<rparr>
   \<and> detect_ball_position
         [\<lparr>contourArea = 60000, m00 = 60000, m10 = 0, m01 = 0\<rparr>,
          \<lparr>contourArea = 100, m00 = 100, m10 = 64050, m01 = 36090\<rparr>] = Inr None"
  by (simp add: detect_ball_position_unfold in_band_def)

text \<open>
  Claim C10. \<^verbatim>\<open>detect_ball_position\<close> raises nothing: in particular neither centroid
  division is reached with a zero divisor. Whenever the selected (largest) contour has
  \<open>m00 = 0\<close>, the result is "no ball position".
\<close>

theorem centroid_division_guarded:
  "detect_ball_position contours \<noteq> Inl e \<and>
   (py_max contourArea contours = Inr l \<and> m00 l = 0 \<longrightarrow>
      detect_ball_position contours = Inr None)"
proof (cases contours)
  case Nil
  then show ?thesis by (simp add: detect_ball_position_def py_max_def)
next
  case (Cons c cs)
  then show ?thesis
    by (auto simp: detect_ball_position_unfold py_max_def Let_def)
qed

text \<open>The theorem on a single contour inside the area band whose \<open>m00\<close> is zero.\<close>

theorem centroid_division_guarded_witness:
  "py_max contourArea [\<lparr>contourArea = 100, m00 = 0, m10 = 5, m01 = 5\<rparr>]
     = Inr \<lparr>contourArea = 100, m00 = 0, m10 = 5, m01 = 5\<rparr>
   \<and> m00 \<lparr>contourArea = 100, m00 = 0, m10 = 5, m01 = 5\<rparr> = 0
   \<and> in_band \<lparr>contourArea = 100, m00 = 0, m10 = 5, m01 = 5\<rparr>
   \<and> detect_ball_position [\<lparr>contourArea = 100, m00 = 0, m10 = 5, m01 = 5\<rparr>] = Inr None"
  using centroid_division_guarded
    [of "[\<lparr>contourArea = 100, m00 = 0, m10 = 5, m01 = 5\<rparr>]" ZeroDivisionError
        "\<lparr>contourArea = 100, m00 = 0, m10 = 5, m01 = 5\<rparr>"]
  by (simp add: py_max_def in_band_def)

subsection \<open>Subject selection: results\<close>

lemma sqrt_less_200: "sqrt x < 200 \<longleftrightarrow> x < 40000"
proof -
  have "sqrt 40000 = sqrt (200\<^sup>2)" by simp
  also have "\<dots> = 200" by (rule real_sqrt_unique) simp_all
  finally have "sqrt 40000 = 200" .
  then show ?thesis using real_sqrt_less_iff [of x 40000] by simp
qed

lemma closest_loop_max_by:
  "closest_loop t (Some (distance t (box_center b), box_center b)) ps =
     Some (distance t (box_center (max_by (\<lambda>p. - distance t (box_center p)) b ps)),
           box_center (max_by (\<lambda>p. - distance t (box_center p)) b ps))"
  by (induction ps arbitrary: b) (simp_all add: Let_def)

lemma closest_loop_split:
  assumes "ps \<noteq> []"
  shows "\<exists>pre b post. ps = pre @ b # post
      \<and> closest_loop t None ps = Some (distance t (box_center b), box_center b)
      \<and> (\<forall>p\<in>set pre. distance t (box_center b) < distance t (box_center p))
      \<and> (\<forall>p\<in>set post. distance t (box_center b) \<le> distance t (box_center p))"
proof -
  from assms obtain q qs where ps: "ps = q # qs" by (cases ps) auto
  define m where "m = max_by (\<lambda>p. - distance t (box_center p)) q qs"
  have "closest_loop t None ps = Some (distance t (box_center m), box_center m)"
    unfolding ps m_def using closest_loop_max_by [of t q qs] by (simp add: Let_def)
  moreover
  from max_by_split [of q qs "\<lambda>p. - distance t (box_center p)"] obtain pre post
    where "q # qs = pre @ m # post"
      and "\<forall>x\<in>set pre. - distance t (box_center x) < - distance t (box_center m)"
      and "\<forall>x\<in>set post. - distance t (box_center x) \<le> - distance t (box_center m)"
    unfolding m_def by blast
  ultimately show ?thesis unfolding ps by (intro exI [of _ pre] exI [of _ m] exI [of _ post]) simp
qed

lemma select_player_scenario_ball:
  "select_player (Some (640, 360)) [(600, 250, 100, 220)] 720 1280 = Some (650, 360)"
  by (simp add: select_player_def box_center_def distance_def Let_def sqrt_less_200)

lemma select_player_scenario_center:
  "select_player None [(150, 260, 100, 200), (650, 260, 100, 200)] 720 1280 = Some (700, 360)"
  by (simp add: select_player_def box_center_def distance_def Let_def)

lemma select_player_with_ball:
  assumes "players \<noteq> []"
  shows "\<exists>pre b post. players = pre @ b # post
            \<and> (\<forall>p\<in>set pre. distance ball (box_center b) < distance ball (box_center p))
            \<and> (\<forall>p\<in>set post. distance ball (box_center b) \<le> distance ball (box_center p))
            \<and> (distance ball (box_center b) < 200 \<longrightarrow>
                 select_player (Some ball) players height width = Some (box_center b))
            \<and> (\<not> distance ball (box_center b) < 200 \<longrightarrow>
                 select_player (Some ball) players height width =
                 select_player None players height width)"
proof -
  from closest_loop_split [OF assms, of ball] obtain pre b post
    where sp: "players = pre @ b # post"
      and cl: "closest_loop ball None players = Some (distance ball (box_center b), box_center b)"
      and lt: "\<forall>p\<in>set pre. distance ball (box_center b) < distance ball (box_center p)"
      and le: "\<forall>p\<in>set post. distance ball (box_center b) \<le> distance ball (box_center p)"
    by blast
  have acc: "distance ball (box_center b) < 200 \<Longrightarrow>
      select_player (Some ball) players height width = Some (box_center b)"
    using assms cl by (simp add: select_player_def)
  have rej: "\<not> distance ball (box_center b) < 200 \<Longrightarrow>
      select_player (Some ball) players height width = select_player None players height width"
    using assms cl by (simp add: select_player_def)
  from sp lt le acc rej show ?thesis by blast
qed

text \<open>
  Claim C4. With a ball position and at least one person box, let \<open>b\<close> be the first box
  whose centre is nearest to the ball. The selector answers through the ball-matching
  path exactly when that distance is below 200, and the point it then returns is the
  centre of \<open>b\<close>; otherwise it answers as if no ball had been seen. With the ball at
  (640, 360) and the single box (600, 250, 100, 220) it returns (650, 360).
\<close>

theorem ball_match_within_radius:
  assumes "players \<noteq> []"
  shows "(\<exists>pre b post. players = pre @ b # post
            \<and> (\<forall>p\<in>set pre. distance ball (box_center b) < distance ball (box_center p))
            \<and> (\<forall>p\<in>set post. distance ball (box_center b) \<le> distance ball (box_center p))
            \<and> (distance ball (box_center b) < 200 \<longrightarrow>
                 select_player (Some ball) players height width = Some (box_center b))
            \<and> (\<not> distance ball (box_center b) < 200 \<longrightarrow>
                 select_player (Some ball) players height width =
                 select_player None players height width))
       \<and> select_player (Some (640, 360)) [(600, 250, 100, 220)] 720 1280 = Some (650, 360)"
  using select_player_with_ball [OF assms, of ball height width] select_player_scenario_ball
  by blast

text \<open>
  The theorem with the ball at (640, 360) and two boxes centred at (650, 360) and
  (1000, 360): the first is 10 pixels from the ball and is returned.
\<close>

theorem ball_match_within_radius_witness:
  "[(600, 250, 100, 220), (950, 250, 100, 220)] \<noteq> ([] :: bbox list)
   \<and> distance (640, 360) (box_center (600, 250, 100, 220)) < 200
   \<and> select_player (Some (640, 360)) [(600, 250, 100, 220), (950, 250, 100, 220)] 720 1280
       = Some (650, 360)"
proof -
  have ne: "[(600, 250, 100, 220), (950, 250, 100, 220)] \<noteq> ([] :: bbox list)" by simp
  have d1: "distance (640, 360) (box_center (600, 250, 100, 220)) < 200"
    by (simp add: box_center_def distance_def sqrt_less_200)
  have d2: "\<not> distance (640, 360) (box_center (950, 250, 100, 220)) < 200"
    by (simp add: box_center_def distance_def sqrt_less_200)
  from ball_match_within_radius [OF ne, of "(640, 360)" 720 1280] obtain pre b post
    where sp: "[(600, 250, 100, 220), (950, 250, 100, 220)] = pre @ b # post"
      and lt: "\<forall>p\<in>set pre. distance (640, 360) (box_center b)
                 < distance (640, 360) (box_center p)"
      and acc: "distance (640, 360) (box_center b) < 200 \<longrightarrow>
                 select_player (Some (640, 360))
                   [(600, 250, 100, 220), (950, 250, 100, 220)] 720 1280 = Some (box_center b)"
    by blast
  have "b = (600, 250, 100, 220)"
  proof (cases pre)
    case Nil
    with sp show ?thesis by simp
  next
    case (Cons q qs)
    with sp have q: "q = (600, 250, 100, 220)" and rest: "[(950, 250, 100, 220)] = qs @ b # post"
      by simp_all
    from rest have "b = (950, 250, 100, 220)"
      by (cases qs) simp_all
    with lt Cons q have "distance (640, 360) (box_center (950, 250, 100, 220))
        < distance (640, 360) (box_center (600, 250, 100, 220))"
      by simp
    with d1 d2 show ?thesis by simp
  qed
  with acc d1 have "select_player (Some (640, 360))
      [(600, 250, 100, 220), (950, 250, 100, 220)] 720 1280
      = Some (box_center (600, 250, 100, 220))"
    by simp
  then have "select_player (Some (640, 360))
      [(600, 250, 100, 220), (950, 250, 100, 220)] 720 1280 = Some (650, 360)"
    by (simp add: box_center_def)
  with ne d1 show ?thesis by blast
qed

text \<open>
  Claim C5. With person boxes and either no ball or a nearest-to-ball match that was
  rejected (no box centre within 200 of the ball), the selector returns the centre of
  the box nearest to the frame centre \<open>(width div 2, height div 2)\<close>; every box before
  the chosen one is strictly farther, so the first of several nearest boxes wins. With
  boxes centred at (200, 360) and (700, 360) in a 1280x720 frame it returns (700, 360).
\<close>

theorem center_fallback_first_closest:
  assumes "players \<noteq> []"
    and "ball_pos = None \<or>
         (\<exists>ball. ball_pos = Some ball
            \<and> (\<forall>p\<in>set players. \<not> distance ball (box_center p) < 200))"
  shows "(\<exists>pre b post. players = pre @ b # post
            \<and> select_player ball_pos players height width = Some (box_center b)
            \<and> (\<forall>p\<in>set pre. distance (width div 2, height div 2) (box_center b)
                               < distance (width div 2, height div 2) (box_center p))
            \<and> (\<forall>p\<in>set post. distance (width div 2, height div 2) (box_center b)
                               \<le> distance (width div 2, height div 2) (box_center p)))
       \<and> select_player None [(150, 260, 100, 200), (650, 260, 100, 200)] 720 1280
           = Some (700, 360)"
proof -
  from closest_loop_split [OF assms(1), of "(width div 2, height div 2)"] obtain pre b post
    where sp: "players = pre @ b # post"
      and cl: "closest_loop (width div 2, height div 2) None players
                 = Some (distance (width div 2, height div 2) (box_center b), box_center b)"
      and lt: "\<forall>p\<in>set pre. distance (width div 2, height div 2) (box_center b)
                               < distance (width div 2, height div 2) (box_center p)"
      and le: "\<forall>p\<in>set post. distance (width div 2, height div 2) (box_center b)
                               \<le> distance (width div 2, height div 2) (box_center p)"
    by blast
  have none: "select_player None players height width = Some (box_center b)"
    using assms(1) cl by (simp add: select_player_def)
  have "select_player ball_pos players height width = Some (box_center b)"
  proof (cases ball_pos)
    case None
    with none show ?thesis by simp
  next
    case (Some ball)
    with assms(2) have far: "\<forall>p\<in>set players. \<not> distance ball (box_center p) < 200"
      by simp
    from select_player_with_ball [OF assms(1), of ball height width] obtain pre' b' post'
      where sp': "players = pre' @ b' # post'"
        and rej: "\<not> distance ball (box_center b') < 200 \<longrightarrow>
                   select_player (Some ball) players height width =
                   select_player None players height width"
      by blast
    from sp' have "b' \<in> set players" by simp
    with far rej none Some show ?thesis by simp
  qed
  with sp lt le select_player_scenario_center show ?thesis by blast
qed

text \<open>
  The theorem without a ball and with two boxes centred at (600, 360) and (680, 360),
  both 40 pixels from the centre of a 1280x720 frame: the first one is returned.
\<close>

theorem center_fallback_first_closest_witness:
  "[(550, 260, 100, 200), (630, 260, 100, 200)] \<noteq> ([] :: bbox list)
   \<and> distance (1280 div 2, 720 div 2) (box_center (550, 260, 100, 200))
       = distance (1280 div 2, 720 div 2) (box_center (630, 260, 100, 200))
   \<and> select_player None [(550, 260, 100, 200), (630, 260, 100, 200)] 720 1280
       = Some (600, 360)"
proof -
  have ne: "[(550, 260, 100, 200), (630, 260, 100, 200)] \<noteq> ([] :: bbox list)" by simp
  have tie: "distance (1280 div 2, 720 div 2) (box_center (550, 260, 100, 200))
       = distance (1280 div 2, 720 div 2) (box_center (630, 260, 100, 200))"
    by (simp add: box_center_def distance_def)
  have nb: "(None :: point option) = None \<or>
         (\<exists>ball. None = Some ball
            \<and> (\<forall>p\<in>set [(550, 260, 100, 200), (630, 260, 100, 200)].
                  \<not> distance ball (box_center p) < 200))"
    by simp
  from center_fallback_first_closest [OF ne nb, of 720 1280] obtain pre b post
    where sp: "[(550, 260, 100, 200), (630, 260, 100, 200)] = pre @ b # post"
      and res: "select_player None [(550, 260, 100, 200), (630, 260, 100, 200)] 720 1280
                  = Some (box_center b)"
      and lt: "\<forall>p\<in>set pre. distance (1280 div 2, 720 div 2) (box_center b)
                 < distance (1280 div 2, 720 div 2) (box_center p)"
    by blast
  have "b = (550, 260, 100, 200)"
  proof (cases pre)
    case Nil
    with sp show ?thesis by simp
  next
    case (Cons q qs)
    with sp have q: "q = (550, 260, 100, 200)" and rest: "[(630, 260, 100, 200)] = qs @ b # post"
      by simp_all
    from rest have "b = (630, 260, 100, 200)"
      by (cases qs) simp_all
    with lt Cons q have "distance (1280 div 2, 720 div 2) (box_center (630, 260, 100, 200))
        < distance (1280 div 2, 720 div 2) (box_center (550, 260, 100, 200))"
      by simp
    with tie show ?thesis by simp
  qed
  with res have "select_player None [(550, 260, 100, 200), (630, 260, 100, 200)] 720 1280
      = Some (600, 360)"
    by (simp add: box_center_def)
  with ne tie show ?thesis by blast
qed

subsection \<open>Position smoothing: results\<close>

lemma push_history_nonempty: "0 < hsize \<Longrightarrow> push_history hsize h p \<noteq> []"
  by (cases h) (auto simp: push_history_def Let_def)

lemma push_history_last: "0 < hsize \<Longrightarrow> last (push_history hsize h p) = p"
  by (cases h) (auto simp: push_history_def Let_def last_tl)

lemma foldl_push_history:
  "foldl (push_history hsize) [] ps = drop (length ps - hsize) ps"
proof (induction ps rule: rev_induct)
  case Nil
  show ?case by simp
next
  case (snoc p ps)
  show ?case
  proof (cases "length ps < hsize")
    case True
    with snoc show ?thesis by (simp add: push_history_def Let_def)
  next
    case False
    define k where "k = length ps - hsize"
    have len: "length (drop k ps) = hsize" using False by (simp add: k_def)
    have k: "length (ps @ [p]) - hsize = Suc k" using False by (simp add: k_def)
    have "foldl (push_history hsize) [] (ps @ [p]) = push_history hsize (drop k ps) p"
      using snoc by (simp add: k_def)
    also have "\<dots> = tl (drop k ps @ [p])"
      using len by (simp add: push_history_def Let_def)
    also have "\<dots> = drop (Suc k) (ps @ [p])"
    proof (cases "hsize = 0")
      case True
      with len False show ?thesis by (simp add: k_def)
    next
      case False
      with len have "drop k ps \<noteq> []" by auto
      then have "tl (drop k ps @ [p]) = tl (drop k ps) @ [p]" by simp
      also have "\<dots> = drop (Suc k) ps @ [p]" by (simp add: drop_Suc drop_tl)
      also have "\<dots> = drop (Suc k) (ps @ [p])" using len \<open>drop k ps \<noteq> []\<close> by simp
      finally show ?thesis .
    qed
    finally show ?thesis unfolding k .
  qed
qed


lemma push_history_length:
  "length h \<le> hsize \<Longrightarrow> length (push_history hsize h p) \<le> hsize"
  by (auto simp: push_history_def Let_def)

lemma py_int_nonneg_bounds:
  assumes "0 \<le> r"
  shows "r - 1 < real_of_int (py_int r)" and "real_of_int (py_int r) \<le> r"
  using assms by (simp_all add: py_int_def)

lemma ramp_mean_five:
  "ramp_mean [a, b, c, d, e]
     = (4 * real_of_int a + 5 * real_of_int b + 6 * real_of_int c
          + 7 * real_of_int d + 8 * real_of_int e) / 30"
  by (simp add: ramp_mean_def ramp_weight_def lessThan_Suc eval_nat_numeral field_simps)

lemma smooth_accurate:
  assumes "accurate_on average tol (map fst h)" and "accurate_on average tol (map snd h)"
  shows "\<exists>rx ry. smooth average h = Inr (py_int rx, py_int ry)
           \<and> \<bar>rx - ramp_mean (map fst h)\<bar> \<le> tol \<and> \<bar>ry - ramp_mean (map snd h)\<bar> \<le> tol"
  using assms by (auto simp: accurate_on_def smooth_def split: sum.splits)

text \<open>
  Claim C8. The five positions (100,100), (102,101), (500,500), (104,103), (105,104)
  all lie in a window of size 5 (and in the window of 7 of the code). By the weighting
  formula the middle one of five entries carries 1/5 of the total weight, so replacing
  the outlier by any other value moves the exact weighted mean by one fifth of the
  difference. Against the same window without the jump, that is with the outlier's
  predecessor (102,101) in its place, the raw jump is 398 pixels in x and 399 in y, and
  the exact means move by 79.6 and 79.8 pixels. For every averager that answers the four
  coordinate lists within half a pixel of the exact mean, the integer outputs of the
  smoother differ by less than 40% of the raw jump in both coordinates. With the exact
  mean itself the outputs are (182, 181) and (103, 102). (For five entries the weights
  1/2, 5/8, 3/4, 7/8 and 1 are binary fractions, so a double-precision evaluation of
  these four lists loses nothing before the final quotient.)
\<close>

theorem outlier_damped_in_window:
  "foldl (push_history 5) [] [(100, 100), (102, 101), (500, 500), (104, 103), (105, 104)]
     = [(100, 100), (102, 101), (500, 500), (104, 103), (105, 104)]
   \<and> foldl (push_history history_size) []
        [(100, 100), (102, 101), (500, 500), (104, 103), (105, 104)]
     = [(100, 100), (102, 101), (500, 500), (104, 103), (105, 104)]
   \<and> ramp_weight 5 2 / (\<Sum>i<5. ramp_weight 5 i) = 1 / 5
   \<and> ramp_mean [a, b, c, d, e] - ramp_mean [a, b, c', d, e] = real_of_int (c - c') / 5
   \<and> (accurate_on average (1 / 2) [100, 102, 500, 104, 105]
        \<and> accurate_on average (1 / 2) [100, 101, 500, 103, 104]
        \<and> accurate_on average (1 / 2) [100, 102, 102, 104, 105]
        \<and> accurate_on average (1 / 2) [100, 101, 101, 103, 104]
      \<longrightarrow> (\<exists>out_x out_y calm_x calm_y.
             smooth average
               (foldl (push_history 5) []
                  [(100, 100), (102, 101), (500, 500), (104, 103), (105, 104)])
               = Inr (out_x, out_y)
           \<and> smooth average
               (foldl (push_history 5) []
                  [(100, 100), (102, 101), (102, 101), (104, 103), (105, 104)])
               = Inr (calm_x, calm_y)
           \<and> \<bar>real_of_int (out_x - calm_x)\<bar> < 0.4 * \<bar>real_of_int (500 - 102)\<bar>
           \<and> \<bar>real_of_int (out_y - calm_y)\<bar> < 0.4 * \<bar>real_of_int (500 - 101)\<bar>))
   \<and> smooth exact_average
         (foldl (push_history 5) []
            [(100, 100), (102, 101), (500, 500), (104, 103), (105, 104)]) = Inr (182, 181)
   \<and> smooth exact_average
         (foldl (push_history 5) []
            [(100, 100), (102, 101), (102, 101), (104, 103), (105, 104)]) = Inr (103, 102)"
proof (intro conjI impI)
  show "foldl (push_history 5) [] [(100, 100), (102, 101), (500, 500), (104, 103), (105, 104)]
     = [(100, 100), (102, 101), (500, 500), (104, 103), (105, 104)]"
    unfolding foldl_push_history by simp
  show "foldl (push_history history_size) []
        [(100, 100), (102, 101), (500, 500), (104, 103), (105, 104)]
     = [(100, 100), (102, 101), (500, 500), (104, 103), (105, 104)]"
    unfolding foldl_push_history by (simp add: history_size_def)
  show "ramp_weight 5 2 / (\<Sum>i<5. ramp_weight 5 i) = 1 / 5"
    by (simp add: ramp_weight_def lessThan_Suc eval_nat_numeral)
  show "ramp_mean [a, b, c, d, e] - ramp_mean [a, b, c', d, e] = real_of_int (c - c') / 5"
    by (simp add: ramp_mean_five field_simps)
  show "smooth exact_average
         (foldl (push_history 5) []
            [(100, 100), (102, 101), (500, 500), (104, 103), (105, 104)]) = Inr (182, 181)"
    unfolding foldl_push_history
    by (simp add: smooth_def exact_average_def ramp_mean_five py_int_def)
  show "smooth exact_average
         (foldl (push_history 5) []
            [(100, 100), (102, 101), (102, 101), (104, 103), (105, 104)]) = Inr (103, 102)"
    unfolding foldl_push_history
    by (simp add: smooth_def exact_average_def ramp_mean_five py_int_def)
next
  assume acc: "accurate_on average (1 / 2) [100, 102, 500, 104, 105]
        \<and> accurate_on average (1 / 2) [100, 101, 500, 103, 104]
        \<and> accurate_on average (1 / 2) [100, 102, 102, 104, 105]
        \<and> accurate_on average (1 / 2) [100, 101, 101, 103, 104]"
  have w1: "foldl (push_history 5) []
      [(100, 100), (102, 101), (500, 500), (104, 103), (105, 104)]
      = [(100, 100), (102, 101), (500, 500), (104, 103), (105, 104)]"
    unfolding foldl_push_history by simp
  have w2: "foldl (push_history 5) []
      [(100, 100), (102, 101), (102, 101), (104, 103), (105, 104)]
      = [(100, 100), (102, 101), (102, 101), (104, 103), (105, 104)]"
    unfolding foldl_push_history by simp
  from acc smooth_accurate
    [of average "1 / 2" "[(100, 100), (102, 101), (500, 500), (104, 103), (105, 104)]"]
  obtain rx ry where out: "smooth average
        [(100, 100), (102, 101), (500, 500), (104, 103), (105, 104)]
        = Inr (py_int rx, py_int ry)"
    and rx: "\<bar>rx - 913 / 5\<bar> \<le> 1 / 2" and ry: "\<bar>ry - 2729 / 15\<bar> \<le> 1 / 2"
    by (auto simp: ramp_mean_five)
  from acc smooth_accurate
    [of average "1 / 2" "[(100, 100), (102, 101), (102, 101), (104, 103), (105, 104)]"]
  obtain qx qy where calm: "smooth average
        [(100, 100), (102, 101), (102, 101), (104, 103), (105, 104)]
        = Inr (py_int qx, py_int qy)"
    and qx: "\<bar>qx - 103\<bar> \<le> 1 / 2" and qy: "\<bar>qy - 1532 / 15\<bar> \<le> 1 / 2"
    by (auto simp: ramp_mean_five)
  from rx ry qx qy have pos: "0 \<le> rx" "0 \<le> ry" "0 \<le> qx" "0 \<le> qy" by linarith+
  note b1 = py_int_nonneg_bounds [OF pos(1)] and b2 = py_int_nonneg_bounds [OF pos(2)]
    and b3 = py_int_nonneg_bounds [OF pos(3)] and b4 = py_int_nonneg_bounds [OF pos(4)]
  have "real_of_int (py_int rx) - real_of_int (py_int qx) < 796 / 5"
    and "real_of_int (py_int qx) - real_of_int (py_int rx) < 796 / 5"
    using rx qx b1 b3 unfolding abs_le_iff by linarith+
  then have dx: "\<bar>real_of_int (py_int rx - py_int qx)\<bar> < 0.4 * \<bar>real_of_int (500 - 102)\<bar>"
    unfolding abs_less_iff by simp
  have "real_of_int (py_int ry) - real_of_int (py_int qy) < 798 / 5"
    and "real_of_int (py_int qy) - real_of_int (py_int ry) < 798 / 5"
    using ry qy b2 b4 unfolding abs_le_iff by linarith+
  then have dy: "\<bar>real_of_int (py_int ry - py_int qy)\<bar> < 0.4 * \<bar>real_of_int (500 - 101)\<bar>"
    unfolding abs_less_iff by simp
  from out calm dx dy show "\<exists>out_x out_y calm_x calm_y.
             smooth average
               (foldl (push_history 5) []
                  [(100, 100), (102, 101), (500, 500), (104, 103), (105, 104)])
               = Inr (out_x, out_y)
           \<and> smooth average
               (foldl (push_history 5) []
                  [(100, 100), (102, 101), (102, 101), (104, 103), (105, 104)])
               = Inr (calm_x, calm_y)
           \<and> \<bar>real_of_int (out_x - calm_x)\<bar> < 0.4 * \<bar>real_of_int (500 - 102)\<bar>
           \<and> \<bar>real_of_int (out_y - calm_y)\<bar> < 0.4 * \<bar>real_of_int (500 - 101)\<bar>"
    unfolding w1 w2 by blast
qed

text \<open>
  The theorem for the averager without rounding: it answers the four coordinate lists
  exactly, the outputs are (182, 181) and (103, 102), and they differ by 79 pixels in
  each coordinate.
\<close>

theorem outlier_damped_in_window_witness:
  "accurate_on exact_average (1 / 2) [100, 102, 500, 104, 105]
   \<and> accurate_on exact_average (1 / 2) [100, 101, 500, 103, 104]
   \<and> accurate_on exact_average (1 / 2) [100, 102, 102, 104, 105]
   \<and> accurate_on exact_average (1 / 2) [100, 101, 101, 103, 104]
   \<and> smooth exact_average
         (foldl (push_history 5) []
            [(100, 100), (102, 101), (500, 500), (104, 103), (105, 104)]) = Inr (182, 181)
   \<and> smooth exact_average
         (foldl (push_history 5) []
            [(100, 100), (102, 101), (102, 101), (104, 103), (105, 104)]) = Inr (103, 102)
   \<and> \<bar>real_of_int (182 - 103)\<bar> < 0.4 * \<bar>real_of_int (500 - 102)\<bar>
   \<and> \<bar>real_of_int (181 - 102)\<bar> < 0.4 * \<bar>real_of_int (500 - 101)\<bar>"
proof -
  have acc: "accurate_on exact_average (1 / 2) [100, 102, 500, 104, 105]
   \<and> accurate_on exact_average (1 / 2) [100, 101, 500, 103, 104]
   \<and> accurate_on exact_average (1 / 2) [100, 102, 102, 104, 105]
   \<and> accurate_on exact_average (1 / 2) [100, 101, 101, 103, 104]"
    by (simp add: accurate_on_def exact_average_def)
  note inst = outlier_damped_in_window [where average = exact_average and a = 100
      and b = 102 and c = 500 and c' = 102 and d = 104 and e = 105]
  from inst have o1: "smooth exact_average
         (foldl (push_history 5) []
            [(100, 100), (102, 101), (500, 500), (104, 103), (105, 104)]) = Inr (182, 181)"
    and o2: "smooth exact_average
         (foldl (push_history 5) []
            [(100, 100), (102, 101), (102, 101), (104, 103), (105, 104)]) = Inr (103, 102)"
    by blast+
  from inst acc obtain out_x out_y calm_x calm_y where
    "smooth exact_average
         (foldl (push_history 5) []
            [(100, 100), (102, 101), (500, 500), (104, 103), (105, 104)]) = Inr (out_x, out_y)"
    "smooth exact_average
         (foldl (push_history 5) []
            [(100, 100), (102, 101), (102, 101), (104, 103), (105, 104)])
       = Inr (calm_x, calm_y)"
    "\<bar>real_of_int (out_x - calm_x)\<bar> < 0.4 * \<bar>real_of_int (500 - 102)\<bar>"
    "\<bar>real_of_int (out_y - calm_y)\<bar> < 0.4 * \<bar>real_of_int (500 - 101)\<bar>"
    by blast
  with o1 o2 have "\<bar>real_of_int (182 - 103)\<bar> < 0.4 * \<bar>real_of_int (500 - 102)\<bar>"
    and "\<bar>real_of_int (181 - 102)\<bar> < 0.4 * \<bar>real_of_int (500 - 101)\<bar>"
    by simp_all
  with acc o1 o2 show ?thesis by blast
qed

subsection \<open>The tracking loop: results\<close>

lemma detection_phase_history:
  assumes "detection_phase di s f = Inr (d, s1)"
  shows "position_history s1 = position_history s"
  using assms
  by (auto simp: detection_phase_def Let_def split: if_splits sum.splits option.splits)

lemma tracking_phase_history:
  assumes "tracking_phase d s f = (pp, s2)"
  shows "position_history s2 = position_history s"
  using assms
  by (auto simp: tracking_phase_def Let_def split: option.splits prod.splits if_splits)

lemma locate_subject_history:
  assumes "locate_subject di s f = Inr (p, s2)"
  shows "position_history s2 = position_history s"
proof -
  from assms obtain d s1 where d: "detection_phase di s f = Inr (d, s1)"
    by (auto simp: locate_subject_def split: sum.splits)
  obtain pp s2' where t: "tracking_phase d s1 f = (pp, s2')"
    by (cases "tracking_phase d s1 f") auto
  from assms d t have "s2 = s2'"
    by (auto simp: locate_subject_def split: option.splits)
  with detection_phase_history [OF d] tracking_phase_history [OF t] show ?thesis by simp
qed

lemma track_frame_history:
  assumes "track_frame average t di s f = Inr s'"
  shows "\<exists>p. position_history s' = push_history history_size (position_history s) p"
proof -
  from assms obtain p s1 where l: "locate_subject di s f = Inr (p, s1)"
    by (auto simp: track_frame_def split: sum.splits)
  from assms l have "position_history s' = push_history history_size (position_history s1) p"
    by (auto simp: track_frame_def Let_def split: sum.splits)
  with locate_subject_history [OF l]
  have "position_history s' = push_history history_size (position_history s) p" by simp
  then show ?thesis by (rule exI)
qed

lemma track_loop_history_bound:
  assumes "track_loop average fps st du di s fs = Inr s'"
    and "length (position_history s) \<le> history_size"
  shows "length (position_history s') \<le> history_size"
  using assms
proof (induction fs arbitrary: s)
  case Nil
  then show ?case by simp
next
  case (Cons f fs)
  show ?case
  proof (cases "fps = 0 \<or> st + real_of_int (frame_num s) / fps > st + du")
    case True
    with Cons.prems show ?thesis by (auto simp: Let_def split: if_splits)
  next
    case False
    with Cons.prems(1) obtain s1
      where s1: "track_frame average (st + real_of_int (frame_num s) / fps) di s f = Inr s1"
        and rest: "track_loop average fps st du di s1 fs = Inr s'"
      by (auto simp: Let_def split: sum.splits)
    from track_frame_history [OF s1] obtain p
      where "position_history s1 = push_history history_size (position_history s) p"
      by blast
    with push_history_length [OF Cons.prems(2), of p]
    have "length (position_history s1) \<le> history_size" by simp
    with Cons.IH [OF rest] show ?thesis .
  qed
qed

text \<open>
  Claim C7. Whatever sequence of positions is pushed into an empty history, the history
  afterwards is the sequence's last \<open>history_size\<close> (7) entries, so it never grows beyond
  7 and it is the oldest entries that are dropped. In the tracking loop the bound holds
  after any number of frames, from the initial state and from any state that obeys it.
\<close>

theorem history_never_exceeds_window:
  "length (foldl (push_history history_size) [] ps) \<le> history_size
   \<and> foldl (push_history history_size) [] ps = drop (length ps - history_size) ps
   \<and> (length (position_history s) \<le> history_size
        \<and> track_loop average fps start_time duration detection_interval s frames = Inr s'
      \<longrightarrow> length (position_history s') \<le> history_size)
   \<and> (track_loop average fps start_time duration detection_interval initial_state frames
          = Inr s''
      \<longrightarrow> length (position_history s'') \<le> history_size)"
proof (intro conjI impI)
  show "foldl (push_history history_size) [] ps = drop (length ps - history_size) ps"
    by (rule foldl_push_history)
  then show "length (foldl (push_history history_size) [] ps) \<le> history_size"
    by simp
  show "length (position_history s') \<le> history_size"
    if "length (position_history s) \<le> history_size
        \<and> track_loop average fps start_time duration detection_interval s frames = Inr s'"
    using that track_loop_history_bound by blast
  show "length (position_history s'') \<le> history_size"
    if "track_loop average fps start_time duration detection_interval initial_state frames
          = Inr s''"
    using that track_loop_history_bound [of _ _ _ _ _ initial_state]
    by (simp add: initial_state_def)
qed

lemmas track_eval = track_frame_def locate_subject_def detection_phase_def
  tracking_phase_def find_player_with_ball_def detect_ball_position_def select_player_def
  initial_state_def push_history_def smooth_def py_int_def
  history_size_def box_center_def Let_def

text \<open>
  The theorem on nine frames of a 1280x720 clip at 30 frames per second in which nothing
  is ever detected: every raw position is the frame centre, nine positions are emitted,
  and the history holds seven entries at the end.
\<close>

theorem history_never_exceeds_window_witness:
  "\<exists>s'. track_loop exact_average 30 0 30 15 initial_state
       (replicate 9 \<lparr>shape_height = 720, shape_width = 1280, ball_contours = [],
          detected_players = [], update_result = (False, (0, 0, 0, 0))\<rparr>) = Inr s'
     \<and> length (positions s') = 9
     \<and> position_history s' = replicate 7 (640, 360)
     \<and> length (position_history s') \<le> history_size"
proof -
  have "\<exists>s'. track_loop exact_average 30 0 30 15 initial_state
       (replicate 9 \<lparr>shape_height = 720, shape_width = 1280, ball_contours = [],
          detected_players = [], update_result = (False, (0, 0, 0, 0))\<rparr>) = Inr s'
     \<and> length (positions s') = 9 \<and> position_history s' = replicate 7 (640, 360)"
    by (simp add: track_eval exact_average_def ramp_mean_def ramp_weight_def lessThan_Suc
          numeral_eq_Suc)
  then obtain s' where run: "track_loop exact_average 30 0 30 15 initial_state
       (replicate 9 \<lparr>shape_height = 720, shape_width = 1280, ball_contours = [],
          detected_players = [], update_result = (False, (0, 0, 0, 0))\<rparr>) = Inr s'"
    and rest: "length (positions s') = 9" "position_history s' = replicate 7 (640, 360)"
    by blast
  from history_never_exceeds_window
    [where average = exact_average and fps = 30 and start_time = 0 and duration = 30
       and detection_interval = 15
       and frames = "replicate 9 \<lparr>shape_height = 720, shape_width = 1280, ball_contours = [],
          detected_players = [], update_result = (False, (0, 0, 0, 0))\<rparr>"
       and s'' = s'] run
  have "length (position_history s') \<le> history_size" by blast
  with run rest show ?thesis by blast
qed

text \<open>
  Claim C3 (as amended). In the tracking state, on a frame where redetection is due and
  finds no subject, no new tracker is created and the existing one is updated on the
  frame. If the update succeeds, the raw position of the frame is the centre of the
  updated box and becomes the last known position. Only if the update fails is the last
  known position reused (or the frame centre when there is none), and then the last
  position and the tracked box are left as they were.
\<close>

theorem redetection_miss_updates_tracker:
  assumes "tracker s = Some t"
    and "detection_interval \<noteq> 0"
    and "frame_num s mod detection_interval = 0"
    and "find_player_with_ball f = Inr None"
  shows "\<exists>pos s'. locate_subject detection_interval s f = Inr (pos, s')
      \<and> tracker s' = Some (t\<lparr>updates := updates t + 1\<rparr>)
      \<and> (fst (update_result f) \<longrightarrow>
            pos = box_center (snd (update_result f))
            \<and> last_position s' = Some pos
            \<and> tracked_bbox s' = Some (snd (update_result f)))
      \<and> (\<not> fst (update_result f) \<longrightarrow>
            pos = (case last_position s of
                     Some lp \<Rightarrow> lp
                   | None \<Rightarrow> (shape_width f div 2, shape_height f div 2))
            \<and> last_position s' = last_position s
            \<and> tracked_bbox s' = tracked_bbox s)"
proof -
  have d: "detection_phase detection_interval s f = Inr (None, s)"
    using assms by (simp add: detection_phase_def)
  obtain success bbox where u: "update_result f = (success, bbox)"
    by (cases "update_result f") auto
  show ?thesis
  proof (cases success)
    case True
    with assms(1) u d show ?thesis
      by (simp add: locate_subject_def tracking_phase_def Let_def)
  next
    case False
    with assms(1) u d show ?thesis
      by (cases "last_position s") (simp_all add: locate_subject_def tracking_phase_def Let_def)
  qed
qed

text \<open>
  The theorem at frame 15 of a run with detection every 15 frames, a tracker created at
  frame 0 and the last position (640, 360), on a frame without contours and players on
  which the tracker update fails: the raw position is (640, 360) and the tracker, still
  the one created at frame 0, has one more update.
\<close>

theorem redetection_miss_updates_tracker_witness:
  "tracker
     \<lparr>tracker = Some \<lparr>created_at = 0, init_bbox = (565, 285, 150, 150), updates = 14\<rparr>,
        tracked_bbox = Some (565, 285, 150, 150), last_position = Some (640, 360),
        position_history = [(640, 360)], positions = [], frame_num = 15\<rparr>
     = Some \<lparr>created_at = 0, init_bbox = (565, 285, 150, 150), updates = 14\<rparr>
   \<and> (15::int) \<noteq> 0
   \<and> frame_num
     \<lparr>tracker = Some \<lparr>created_at = 0, init_bbox = (565, 285, 150, 150), updates = 14\<rparr>,
        tracked_bbox = Some (565, 285, 150, 150), last_position = Some (640, 360),
        position_history = [(640, 360)], positions = [], frame_num = 15\<rparr>
     mod 15 = 0
   \<and> find_player_with_ball
     \<lparr>shape_height = 720, shape_width = 1280, ball_contours = [],
        detected_players = [], update_result = (False, (0, 0, 0, 0))\<rparr>
     = Inr None
   \<and> (\<exists>s'. locate_subject 15
     \<lparr>tracker = Some \<lparr>created_at = 0, init_bbox = (565, 285, 150, 150), updates = 14\<rparr>,
        tracked_bbox = Some (565, 285, 150, 150), last_position = Some (640, 360),
        position_history = [(640, 360)], positions = [], frame_num = 15\<rparr>
     \<lparr>shape_height = 720, shape_width = 1280, ball_contours = [],
        detected_players = [], update_result = (False, (0, 0, 0, 0))\<rparr>
     = Inr ((640, 360), s')
          \<and> tracker s' = Some \<lparr>created_at = 0, init_bbox = (565, 285, 150, 150), updates = 15\<rparr>
          \<and> last_position s' = Some (640, 360)
          \<and> tracked_bbox s' = Some (565, 285, 150, 150))"
proof -
  have h1: "tracker
     \<lparr>tracker = Some \<lparr>created_at = 0, init_bbox = (565, 285, 150, 150), updates = 14\<rparr>,
        tracked_bbox = Some (565, 285, 150, 150), last_position = Some (640, 360),
        position_history = [(640, 360)], positions = [], frame_num = 15\<rparr>
     = Some \<lparr>created_at = 0, init_bbox = (565, 285, 150, 150), updates = 14\<rparr>" by simp
  have h2: "(15::int) \<noteq> 0" by simp
  have h3: "frame_num
     \<lparr>tracker = Some \<lparr>created_at = 0, init_bbox = (565, 285, 150, 150), updates = 14\<rparr>,
        tracked_bbox = Some (565, 285, 150, 150), last_position = Some (640, 360),
        position_history = [(640, 360)], positions = [], frame_num = 15\<rparr>
     mod 15 = 0" by simp
  have h4: "find_player_with_ball
     \<lparr>shape_height = 720, shape_width = 1280, ball_contours = [],
        detected_players = [], update_result = (False, (0, 0, 0, 0))\<rparr>
     = Inr None"
    by (simp add: find_player_with_ball_def detect_ball_position_def select_player_def)
  from redetection_miss_updates_tracker [OF h1 h2 h3 h4]
  have "\<exists>s'. locate_subject 15
     \<lparr>tracker = Some \<lparr>created_at = 0, init_bbox = (565, 285, 150, 150), updates = 14\<rparr>,
        tracked_bbox = Some (565, 285, 150, 150), last_position = Some (640, 360),
        position_history = [(640, 360)], positions = [], frame_num = 15\<rparr>
     \<lparr>shape_height = 720, shape_width = 1280, ball_contours = [],
        detected_players = [], update_result = (False, (0, 0, 0, 0))\<rparr>
     = Inr ((640, 360), s')
          \<and> tracker s' = Some \<lparr>created_at = 0, init_bbox = (565, 285, 150, 150), updates = 15\<rparr>
          \<and> last_position s' = Some (640, 360)
          \<and> tracked_bbox s' = Some (565, 285, 150, 150)"
    by simp
  with h1 h2 h3 h4 show ?thesis by blast
qed

text \<open>
  Claim C3 as the specification states it fails: in the same state, on a frame on which
  redetection finds nothing and the tracker update succeeds with the box
  (700, 300, 150, 150), the raw position is the box centre (775, 375), not the last
  known position (640, 360), and the last position and the tracked box are overwritten.
\<close>

theorem redetection_miss_counterexample:
  "find_player_with_ball
     \<lparr>shape_height = 720, shape_width = 1280, ball_contours = [],
        detected_players = [], update_result = (True, (700, 300, 150, 150))\<rparr>
     = Inr None
   \<and> frame_num
     \<lparr>tracker = Some \<lparr>created_at = 0, init_bbox = (565, 285, 150, 150), updates = 14\<rparr>,
        tracked_bbox = Some (565, 285, 150, 150), last_position = Some (640, 360),
        position_history = [(640, 360)], positions = [], frame_num = 15\<rparr>
     mod 15 = 0
   \<and> last_position
     \<lparr>tracker = Some \<lparr>created_at = 0, init_bbox = (565, 285, 150, 150), updates = 14\<rparr>,
        tracked_bbox = Some (565, 285, 150, 150), last_position = Some (640, 360),
        position_history = [(640, 360)], positions = [], frame_num = 15\<rparr>
     = Some (640, 360)
   \<and> locate_subject 15
     \<lparr>tracker = Some \<lparr>created_at = 0, init_bbox = (565, 285, 150, 150), updates = 14\<rparr>,
        tracked_bbox = Some (565, 285, 150, 150), last_position = Some (640, 360),
        position_history = [(640, 360)], positions = [], frame_num = 15\<rparr>
     \<lparr>shape_height = 720, shape_width = 1280, ball_contours = [],
        detected_players = [], update_result = (True, (700, 300, 150, 150))\<rparr>
     =
       Inr ((775, 375),
            \<lparr>tracker = Some \<lparr>created_at = 0, init_bbox = (565, 285, 150, 150), updates = 15\<rparr>,
             tracked_bbox = Some (700, 300, 150, 150), last_position = Some (775, 375),
             position_history = [(640, 360)], positions = [], frame_num = 15\<rparr>)"
  by (simp add: track_eval)

subsection \<open>Crop geometry: argument checking\<close>

text \<open>
  Claim C9 (as amended). \<^verbatim>\<open>get_crop_region\<close> does not check its arguments. Whenever the
  crop height can be converted to a double (its magnitude is below \<open>2^1024 - 2^970\<close>),
  the function returns a pair of non-negative integers, for zero and negative frame and
  crop dimensions as for any others; on an axis where the frame is not larger than the
  crop the origin is 0. The one exception it can raise is the \<^verbatim>\<open>OverflowError\<close> of that
  conversion, which depends on the magnitude of the crop height alone, not on its sign
  and not on any other argument.
\<close>

theorem get_crop_region_unchecked:
  "(\<not> int_to_float_overflows crop_height \<longrightarrow>
      (\<exists>x y. get_crop_region px py frame_width frame_height crop_width crop_height oy
               = Inr (x, y)
         \<and> 0 \<le> x \<and> 0 \<le> y
         \<and> (frame_width \<le> crop_width \<longrightarrow> x = 0)
         \<and> (frame_height \<le> crop_height \<longrightarrow> y = 0)))
   \<and> (int_to_float_overflows crop_height \<longrightarrow>
        get_crop_region px py frame_width frame_height crop_width crop_height oy
          = Inl OverflowError)
   \<and> (int_to_float_overflows crop_height \<longleftrightarrow> int_to_float_overflows (- crop_height))"
proof (intro conjI impI)
  assume "\<not> int_to_float_overflows crop_height"
  then have "get_crop_region px py frame_width frame_height crop_width crop_height oy
      = Inr (max 0 (min (px - crop_width div 2) (frame_width - crop_width)),
             max 0 (min (py - crop_height div 2 - oy) (frame_height - crop_height)))"
    by (simp add: get_crop_region_def Let_def)
  moreover have "frame_width \<le> crop_width \<longrightarrow>
      max 0 (min (px - crop_width div 2) (frame_width - crop_width)) = 0"
    by (simp add: max_def min_def)
  moreover have "frame_height \<le> crop_height \<longrightarrow>
      max 0 (min (py - crop_height div 2 - oy) (frame_height - crop_height)) = 0"
    by (simp add: max_def min_def)
  ultimately show "\<exists>x y. get_crop_region px py frame_width frame_height crop_width crop_height oy
               = Inr (x, y)
         \<and> 0 \<le> x \<and> 0 \<le> y
         \<and> (frame_width \<le> crop_width \<longrightarrow> x = 0)
         \<and> (frame_height \<le> crop_height \<longrightarrow> y = 0)"
    by simp
next
  assume "int_to_float_overflows crop_height"
  then show "get_crop_region px py frame_width frame_height crop_width crop_height oy
          = Inl OverflowError"
    by (simp add: get_crop_region_def)
next
  show "int_to_float_overflows crop_height \<longleftrightarrow> int_to_float_overflows (- crop_height)"
    by (simp add: int_to_float_overflows_def)
qed

text \<open>
  The theorem for a frame of -10 by -10 and a crop of -4 by -4, where a pair of numbers
  is returned, and for a crop height of \<open>- 2^1024\<close>, where the conversion overflows.
\<close>

theorem get_crop_region_unchecked_witness:
  "\<not> int_to_float_overflows (-4)
   \<and> (-10::int) \<le> -4
   \<and> get_crop_region 5 5 (-10) (-10) (-4) (-4) 0 = Inr (0, 0)
   \<and> int_to_float_overflows (- (2 ^ 1024))
   \<and> get_crop_region 5 5 (-10) (-10) (-4) (- (2 ^ 1024)) 0 = Inl OverflowError"
proof -
  have a: "\<not> int_to_float_overflows (-4)"
    by (simp add: int_to_float_overflows_def)
  have b: "int_to_float_overflows (- (2 ^ 1024))"
    by (simp add: int_to_float_overflows_def)
  have c: "get_crop_region 5 5 (-10) (-10) (-4) (-4) 0 = Inr (0, 0)"
    by (simp add: get_crop_region_def int_to_float_overflows_def Let_def)
  from get_crop_region_unchecked [of "- (2 ^ 1024)" 5 5 "-10" "-10" "-4" 0] b
  have d: "get_crop_region 5 5 (-10) (-10) (-4) (- (2 ^ 1024)) 0 = Inl OverflowError"
    by blast
  from get_crop_region_unchecked [of "-4" 5 5 "-10" "-10" "-4" 0] a
  have "\<exists>x y. get_crop_region 5 5 (-10) (-10) (-4) (-4) 0 = Inr (x, y) \<and> 0 \<le> x \<and> 0 \<le> y"
    by blast
  with a b c d show ?thesis by simp
qed

text \<open>
  Claim C9 as the specification states it fails: with a crop of 0 by 0, and with frame
  and crop all 0, the function returns an ordinary pair of numbers.
\<close>

theorem get_crop_region_counterexample:
  "get_crop_region 650 360 1280 720 0 0 0 = Inr (650, 360)
   \<and> get_crop_region 650 360 0 0 0 0 0 = Inr (0, 0)"
  by (simp add: get_crop_region_def int_to_float_overflows_def Let_def)

end
